theory Spec2Isabelle
  imports Main "HOL-Library.Multiset"
begin

section \<open>Data model\<close>

text \<open>
  The entries of a \<open>FileList\<close> as \<open>upload.ts\<close> and \<open>cli.ts\<close> read them: the
  local path, the remote path, the content hash, the modification time and, for entries
  listed from the relays, the event that published them (identified here by its id).
\<close>

type_synonym server = string
type_synonym event_id = string

record FileEntry =
  localPath :: string
  remotePath :: string
  sha256 :: string
  changedAt :: nat
  event :: "event_id option"

text \<open>The objects pushed to \<open>results.fileResults\<close> and the \<open>results\<close> object itself
  (\<open>upload.ts\<close>, lines 46 to 50).\<close>

record FileResult =
  file' :: string
  success :: bool
  uploadedServers :: nat
  totalServers :: nat

record Results =
  successful :: nat
  failed :: nat
  fileResults :: "FileResult list"

section \<open>Numbers, \<open>parseInt\<close> and the concurrency option\<close>

text \<open>
  The numbers that reach the concurrency option: \<open>parseInt\<close> returns NaN, an integer that
  is a double, or an infinity. The two zeros are one value here (both are falsy), and the
  fractions, which \<open>parseInt\<close> never returns, are left out of the type.
\<close>

datatype number = NaN | Num int | PosInfinity | NegInfinity

text \<open>JavaScript's truthiness of a number: \<open>0\<close> and NaN are falsy.\<close>

definition truthy :: "number \<Rightarrow> bool" where
  "truthy n = (case n of NaN \<Rightarrow> False | Num i \<Rightarrow> i \<noteq> 0 | _ \<Rightarrow> True)"

text \<open>
  The string that \<open>parseInt\<close> reads is a sequence of UTF-16 code units. White space is
  the \<open>StrWhiteSpaceChar\<close> of ECMAScript: the white space and the line terminators of the
  language, all of them single code units.
\<close>

type_synonym code_units = "nat list"

definition codeUnits :: "string \<Rightarrow> code_units" where
  "codeUnits s = map of_char s"

definition isWhiteSpace :: "nat \<Rightarrow> bool" where
  "isWhiteSpace c =
     (c \<in> {0x09, 0x0A, 0x0B, 0x0C, 0x0D, 0x20, 0xA0, 0x1680, 0x2028, 0x2029, 0x202F, 0x205F,
            0x3000, 0xFEFF}
      \<or> (0x2000 \<le> c \<and> c \<le> 0x200A))"

definition isDigit :: "nat \<Rightarrow> bool" where
  "isDigit c = (48 \<le> c \<and> c \<le> 57)"

definition digitValue :: "nat \<Rightarrow> int" where
  "digitValue c = int c - 48"

text \<open>The number of binary digits of a natural number.\<close>

fun bitLength :: "nat \<Rightarrow> nat" where
  "bitLength n = (if n = 0 then 0 else Suc (bitLength (n div 2)))"

declare bitLength.simps [simp del]

text \<open>
  The Number value of an integer: the nearest double, ties going to the even significand,
  and an infinity from \<open>2 ^ 1024\<close> on. Up to 53 binary digits the integer is its own value.
\<close>

definition numberOf :: "int \<Rightarrow> number" where
  "numberOf i =
     (let m = nat \<bar>i\<bar>; k = bitLength m in
      if k \<le> 53 then Num i
      else
        (let e = k - 53; q = m div 2 ^ e; r = m mod 2 ^ e;
             q' = (if 2 ^ e < 2 * r \<or> (2 * r = 2 ^ e \<and> odd q) then q + 1 else q);
             v = q' * 2 ^ e
         in if 2 ^ 1024 \<le> v then (if i < 0 then NegInfinity else PosInfinity)
            else Num (if i < 0 then - int v else int v)))"

text \<open>
  \<open>parseInt(s, 10)\<close>: leading white space is dropped, one sign is read, and the longest
  run of decimal digits that follows is the value, as a Number; with no digit there the
  result is NaN. (Past the 20th significant digit ECMAScript lets an implementation read
  zeros; the model reads the digits, as V8 does.)
\<close>

definition parseInt :: "code_units \<Rightarrow> number" where
  "parseInt s =
     (let t = dropWhile isWhiteSpace s;
          neg = (case t of c # _ \<Rightarrow> c = 45 | [] \<Rightarrow> False);
          u = (case t of c # r \<Rightarrow> if c = 45 \<or> c = 43 then r else t | [] \<Rightarrow> []);
          z = takeWhile isDigit u
      in if z = [] then NaN
         else numberOf ((if neg then - 1 else 1) * foldl (\<lambda>a d. 10 * a + digitValue d) 0 z))"

record UploadOptions =
  concurrency :: "number option"

text \<open>\<open>const concurrency = options.concurrency || 5\<close> (\<open>upload.ts\<close>, line 38).\<close>

definition limitConcurrency :: "UploadOptions \<Rightarrow> number" where
  "limitConcurrency options =
     (case concurrency options of
        None \<Rightarrow> Num 5
      | Some n \<Rightarrow> if truthy n then n else Num 5)"

text \<open>
  The option object the command builds (\<open>cli.ts\<close>, line 190):
  \<open>options.concurrency ? parseInt(options.concurrency, 10) : 5\<close>, where the option is a
  string or undefined, and the empty string is falsy.
\<close>

definition cliUploadOptions :: "code_units option \<Rightarrow> UploadOptions" where
  "cliUploadOptions c =
     \<lparr>concurrency = Some (case c of
         None \<Rightarrow> Num 5
       | Some s \<Rightarrow> if s \<noteq> [] then parseInt s else Num 5)\<rparr>"

section \<open>The upload of a batch\<close>

text \<open>
  A value that a call throws. The \<open>catch\<close> block of a task converts it with \<open>String(err)\<close>,
  which returns a string or, for a value without a string conversion, throws a TypeError.
\<close>

datatype thrown = Printable string | Unprintable

definition String :: "thrown \<Rightarrow> string option" where
  "String err = (case err of Printable s \<Rightarrow> Some s | Unprintable \<Rightarrow> None)"

text \<open>
  What lies outside the repository is a parameter of the model. Each call either returns or
  throws a value:
  \<^item> \<open>readFileSync\<close> on a local path (\<open>None\<close>: a buffer is returned);
  \<^item> \<open>multiServerUpload\<close> on the servers and a file, which throws or returns a map with
  one entry for each server that stored the blob (here the list of those entries' keys, so
  that its length is \<open>Array.from(uploads.values()).length\<close>);
  \<^item> \<open>publishNSiteEvent\<close> on a remote path and a hash (\<open>None\<close>: it returns);
  \<^item> \<open>pLimit\<close> on the concurrency (\<open>True\<close>: a limiter is returned);
  \<^item> the order in which the limited tasks complete, which the limiter and the event loop
  decide: \<open>completions\<close> is the list of their choices.

  Every call is taken to settle: the source sets no timeout. Left out are the lines written
  with \<open>console.log\<close> and \<open>debug\<close>, the clock, the map \<open>activeUploads\<close> (written, never
  read) and the counters \<open>successCount\<close> and \<open>failCount\<close> of the callbacks, which only
  feed those lines.
\<close>

datatype upload_reply = UploadThrows thrown | UploadReturns "server list"

record upload_env =
  readFileSync :: "string \<Rightarrow> thrown option"
  multiServerUpload :: "server list \<Rightarrow> FileEntry \<Rightarrow> upload_reply"
  publishNSiteEvent :: "string \<Rightarrow> string \<Rightarrow> thrown option"
  pLimit :: "number \<Rightarrow> bool"
  completions :: "nat list"

text \<open>
  What \<open>processUploads\<close> throws: its own error for a missing public key, what \<open>pLimit\<close>
  throws, and the TypeError of \<open>String(err)\<close> with which a task rejects.
\<close>

datatype error = PubkeyNotFound | LimitRejected | NoStringConversion

text \<open>The lines written with \<open>console.error\<close>.\<close>

datatype message =
    ErrorUploading string thrown
  | ErrorDeletingBlob string server
  | ErrorDeletingEvent event_id
  | FailedToFetchOnlineFiles

text \<open>\<open>f.localPath.split("/").pop()\<close>: what follows the last slash.\<close>

definition fileName :: "string \<Rightarrow> string" where
  "fileName p = rev (takeWhile (\<lambda>c. c \<noteq> CHR ''/'') (rev p))"

text \<open>The error of line 77, thrown when the local path has no file name.\<close>

definition noFileName :: "string \<Rightarrow> thrown" where
  "noFileName p = Printable (''Error: Could not determine file name for '' @ p)"

text \<open>
  The state the tasks share: the \<open>results\<close> object and the error stream. A task changes
  \<open>results\<close> only in its last synchronous stretch, after its last \<open>await\<close>, so a task is
  one step on this state and the tasks' steps happen in the order of completion.
\<close>

type_synonym run = "Results \<times> message list"

text \<open>
  The \<open>catch\<close> block of a task (lines 148 to 163): the line of \<open>console.error\<close>, the
  counter, then \<open>String(err)\<close> for the status line, and only then the push. When
  \<open>String(err)\<close> throws, the block is left and the task rejects.
\<close>

definition catchTask :: "server list \<Rightarrow> FileEntry \<Rightarrow> thrown \<Rightarrow> run \<Rightarrow> error + run" where
  "catchTask blossomServers f err st =
     (case st of (results, errs) \<Rightarrow>
        (case String err of
           None \<Rightarrow> Inl NoStringConversion
         | Some _ \<Rightarrow>
             Inr (results\<lparr>failed := failed results + 1,
                          fileResults := fileResults results @
                            [\<lparr>file' = remotePath f, success = False, uploadedServers = 0,
                              totalServers = length blossomServers\<rparr>]\<rparr>,
                  errs @ [ErrorUploading (localPath f) err])))"

text \<open>The body of a task (lines 72 to 147), with every throw leading to the \<open>catch\<close> block.\<close>

definition uploadTask :: "upload_env \<Rightarrow> server list \<Rightarrow> FileEntry \<Rightarrow> run \<Rightarrow> error + run" where
  "uploadTask E blossomServers f st =
     (case readFileSync E (localPath f) of
        Some err \<Rightarrow> catchTask blossomServers f err st
      | None \<Rightarrow>
     (if fileName (localPath f) = [] then catchTask blossomServers f (noFileName (localPath f)) st
      else case multiServerUpload E blossomServers f of
        UploadThrows err \<Rightarrow> catchTask blossomServers f err st
      | UploadReturns uploads \<Rightarrow>
          (let uploaded = length uploads; ok = (uploaded > 0) in
           if ok then
             (case publishNSiteEvent E (remotePath f) (sha256 f) of
                Some err \<Rightarrow> catchTask blossomServers f err st
              | None \<Rightarrow> (case st of (results, errs) \<Rightarrow>
                  Inr (results\<lparr>successful := successful results + 1,
                           fileResults := fileResults results @
                             [\<lparr>file' = remotePath f, success = ok, uploadedServers = uploaded,
                               totalServers = length blossomServers\<rparr>]\<rparr>, errs)))
           else case st of (results, errs) \<Rightarrow>
                  Inr (results\<lparr>failed := failed results + 1,
                           fileResults := fileResults results @
                             [\<lparr>file' = remotePath f, success = ok, uploadedServers = uploaded,
                               totalServers = length blossomServers\<rparr>]\<rparr>, errs))))"

text \<open>
  The order of completion. Every task is started by the limiter and every promise settles;
  which of the pending tasks completes next is the scheduler's choice. With no choice left,
  the tasks complete in the order of submission.
\<close>

fun completionOrder :: "nat list \<Rightarrow> 'a list \<Rightarrow> 'a list" where
  "completionOrder ps [] = []"
| "completionOrder [] (x # xs) = x # xs"
| "completionOrder (p # ps) (x # xs) =
     (let i = p mod length (x # xs)
      in (x # xs) ! i # completionOrder ps (take i (x # xs) @ drop (Suc i) (x # xs)))"

text \<open>
  \<open>await Promise.all(uploadPromises)\<close> (line 172): the tasks complete one after the other;
  when one rejects, \<open>Promise.all\<close> rejects with its error and \<open>processUploads\<close> throws it.
\<close>

fun runTasks :: "upload_env \<Rightarrow> server list \<Rightarrow> FileEntry list \<Rightarrow> run \<Rightarrow> error + run" where
  "runTasks E blossomServers [] st = Inr st"
| "runTasks E blossomServers (f # fs) st =
     (case uploadTask E blossomServers f st of
        Inl e \<Rightarrow> Inl e
      | Inr st' \<Rightarrow> runTasks E blossomServers fs st')"

definition initialResults :: Results where
  "initialResults = \<lparr>successful = 0, failed = 0, fileResults = []\<rparr>"

text \<open>
  \<open>processUploads\<close>: \<open>Inl\<close> is a throw, \<open>Inr (None, _)\<close> the \<open>return\<close> without a value
  of line 34, \<open>Inr (Some results, _)\<close> the \<open>return results\<close> of line 182, each with the
  lines written to the error stream; of a call that throws the model keeps the error alone.
  The public key is \<open>ndk.activeUser?.pubkey\<close>: undefined and the empty string are
  falsy.
\<close>

definition processUploads ::
  "upload_env \<Rightarrow> string option \<Rightarrow> FileEntry list \<Rightarrow> server list \<Rightarrow> UploadOptions
     \<Rightarrow> error + (Results option \<times> message list)" where
  "processUploads E pubkey filesToUpload blossomServers options =
     (if pubkey = None \<or> pubkey = Some [] then Inl PubkeyNotFound
      else if length filesToUpload = 0 then Inr (None, [])
      else if \<not> pLimit E (limitConcurrency options) then Inl LimitRejected
      else case runTasks E blossomServers (completionOrder (completions E) filesToUpload)
                  (initialResults, []) of
             Inl e \<Rightarrow> Inl e
           | Inr (results, errs) \<Rightarrow> Inr (Some results, errs))"

text \<open>The task of one file run on its own, from the initial \<open>results\<close>.\<close>

definition alone :: "upload_env \<Rightarrow> server list \<Rightarrow> FileEntry \<Rightarrow> error + run" where
  "alone E blossomServers f = uploadTask E blossomServers f (initialResults, [])"

section \<open>The purge loop\<close>

text \<open>
  The loop of \<open>cli.ts\<close>, lines 196 to 224, runs the files in sequence. The model records
  every call that leaves the program and every \<open>console.error\<close> in one trace, in the order
  they happen. The replies of the outside world are parameters, and may depend on everything
  that happened before (the trace at the moment of the call):
  \<^item> \<open>BlossomClient.createDeleteAuth\<close> signs a delete authorization for a hash, or throws;
  \<^item> \<open>BlossomClient.deleteBlob\<close> on a server, a hash and an authorization returns or throws;
  \<^item> \<open>file.event.delete\<close> publishes the deletion event, or throws.
\<close>

type_synonym auth = string

datatype action =
    CreateDeleteAuth string
  | DeleteBlob server string auth
  | EventDelete event_id
  | ConsoleError message

record purge_env =
  createDeleteAuth :: "action list \<Rightarrow> string \<Rightarrow> auth option"
  deleteBlob :: "action list \<Rightarrow> server \<Rightarrow> string \<Rightarrow> auth \<Rightarrow> bool"
  eventDelete :: "action list \<Rightarrow> event_id \<Rightarrow> bool"

text \<open>The inner loop over the servers (lines 200 to 211): each call in its own \<open>try\<close>.\<close>

fun deleteBlobs :: "purge_env \<Rightarrow> string \<Rightarrow> auth \<Rightarrow> server list \<Rightarrow> action list \<Rightarrow> action list" where
  "deleteBlobs P h deleteAuth [] tr = tr"
| "deleteBlobs P h deleteAuth (s # ss) tr =
     deleteBlobs P h deleteAuth ss
       (if deleteBlob P tr s h deleteAuth then tr @ [DeleteBlob s h deleteAuth]
        else tr @ [DeleteBlob s h deleteAuth, ConsoleError (ErrorDeletingBlob h s)])"

text \<open>The deletion of the event (lines 213 to 221), in its own \<open>try\<close>.\<close>

definition deleteEvent :: "purge_env \<Rightarrow> event_id \<Rightarrow> action list \<Rightarrow> action list" where
  "deleteEvent P e tr =
     (if eventDelete P tr e then tr @ [EventDelete e]
      else tr @ [EventDelete e, ConsoleError (ErrorDeletingEvent e)])"

text \<open>
  The loop over \<open>toDelete\<close>. The call of \<open>createDeleteAuth\<close> (line 199) is in no \<open>try\<close> of
  the loop: when it throws, the loop is left for the \<open>catch\<close> of line 231 and the process
  exits with status 1. The result is the trace and whether the loop ran to its end.
\<close>

fun purgeFiles :: "purge_env \<Rightarrow> server list \<Rightarrow> FileEntry list \<Rightarrow> action list \<Rightarrow> action list \<times> bool" where
  "purgeFiles P blossomServers [] tr = (tr, True)"
| "purgeFiles P blossomServers (f # toDelete) tr =
     (case event f of
        None \<Rightarrow> purgeFiles P blossomServers toDelete tr
      | Some e \<Rightarrow>
          (case createDeleteAuth P tr (sha256 f) of
             None \<Rightarrow> (tr @ [CreateDeleteAuth (sha256 f)], False)
           | Some deleteAuth \<Rightarrow>
               purgeFiles P blossomServers toDelete
                 (deleteEvent P e
                    (deleteBlobs P (sha256 f) deleteAuth blossomServers
                       (tr @ [CreateDeleteAuth (sha256 f)])))))"

text \<open>
  \<open>if (options.purge) \<dots>\<close> (line 196), and what follows the loop: at its end the process
  exits with status 0 (\<open>True\<close>); after a throw the \<open>catch\<close> of line 231 writes its line
  and the process exits with status 1 (\<open>False\<close>).
\<close>

definition purge :: "purge_env \<Rightarrow> bool \<Rightarrow> server list \<Rightarrow> FileEntry list \<Rightarrow> action list \<times> bool" where
  "purge P purgeOption blossomServers toDelete =
     (if purgeOption then
        (case purgeFiles P blossomServers toDelete [] of
           (tr, True) \<Rightarrow> (tr, True)
         | (tr, False) \<Rightarrow> (tr @ [ConsoleError FailedToFetchOnlineFiles], False))
      else ([], True))"

text \<open>The calls of a trace that leave the program, without the lines of the console.\<close>

definition isCall :: "action \<Rightarrow> bool" where
  "isCall a = (case a of ConsoleError _ \<Rightarrow> False | _ \<Rightarrow> True)"

definition calls :: "action list \<Rightarrow> action list" where
  "calls tr = filter isCall tr"

section \<open>Example batches\<close>

text \<open>
  An outside world for the examples: one local file cannot be read, the read of another
  throws a value without a string conversion, one upload throws, only the server \<open>s2\<close>
  stores blobs (and not the blob of \<open>/a.html\<close>), one path cannot be published, the limiter
  wants a positive integer or infinity, and of the pending tasks the second completes first.
\<close>

definition demoEnv :: upload_env where
  "demoEnv =
     \<lparr>readFileSync = (\<lambda>p.
         if p = ''site/missing.html'' then Some (Printable ''Error: ENOENT'')
         else if p = ''site/odd.html'' then Some Unprintable
         else None),
      multiServerUpload = (\<lambda>ss f.
         if remotePath f = ''/throws.html'' then UploadThrows (Printable ''Error: upload'')
         else UploadReturns (remdups (filter (\<lambda>s. s = ''s2'' \<and> remotePath f \<noteq> ''/a.html'') ss))),
      publishNSiteEvent = (\<lambda>p h.
         if p = ''/unpublished.html'' then Some (Printable ''Error: publish'') else None),
      pLimit = (\<lambda>n. case n of NaN \<Rightarrow> False | Num i \<Rightarrow> 0 < i
                        | PosInfinity \<Rightarrow> True | NegInfinity \<Rightarrow> False),
      completions = [1]\<rparr>"

definition fileA :: FileEntry where
  "fileA = \<lparr>localPath = ''site/a.html'', remotePath = ''/a.html'', sha256 = ''a1'',
            changedAt = 0, event = None\<rparr>"

definition fileB :: FileEntry where
  "fileB = \<lparr>localPath = ''site/b.html'', remotePath = ''/b.html'', sha256 = ''b2'',
            changedAt = 0, event = None\<rparr>"

definition fileU :: FileEntry where
  "fileU = \<lparr>localPath = ''site/unpublished.html'', remotePath = ''/unpublished.html'',
            sha256 = ''e5'', changedAt = 0, event = None\<rparr>"

definition fileM :: FileEntry where
  "fileM = \<lparr>localPath = ''site/missing.html'', remotePath = ''/missing.html'',
            sha256 = ''f6'', changedAt = 0, event = None\<rparr>"

definition fileT :: FileEntry where
  "fileT = \<lparr>localPath = ''site/throws.html'', remotePath = ''/throws.html'',
            sha256 = ''a7'', changedAt = 0, event = None\<rparr>"

definition fileO :: FileEntry where
  "fileO = \<lparr>localPath = ''site/odd.html'', remotePath = ''/odd.html'',
            sha256 = ''b8'', changedAt = 0, event = None\<rparr>"

definition noOptions :: UploadOptions where
  "noOptions = \<lparr>concurrency = None\<rparr>"

text \<open>
  For the purge: signing the authorization for the hash \<open>bad\<close> throws, the server \<open>s1\<close>
  refuses every deletion, and the deletion event of \<open>ev2\<close> cannot be published.
\<close>

definition demoPurgeEnv :: purge_env where
  "demoPurgeEnv =
     \<lparr>createDeleteAuth = (\<lambda>tr h. if h = ''bad'' then None else Some (''auth-'' @ h)),
      deleteBlob = (\<lambda>tr s h a. s \<noteq> ''s1''),
      eventDelete = (\<lambda>tr e. e \<noteq> ''ev2'')\<rparr>"

definition oldFile :: FileEntry where
  "oldFile = \<lparr>localPath = [], remotePath = ''/old.html'', sha256 = ''c3'',
              changedAt = 0, event = Some ''ev1''\<rparr>"

definition staleFile :: FileEntry where
  "staleFile = \<lparr>localPath = [], remotePath = ''/stale.html'', sha256 = ''d4'',
                changedAt = 0, event = Some ''ev2''\<rparr>"

definition unsignedFile :: FileEntry where
  "unsignedFile = \<lparr>localPath = [], remotePath = ''/unsigned.html'', sha256 = ''bad'',
                   changedAt = 0, event = Some ''ev0''\<rparr>"

definition strayFile :: FileEntry where
  "strayFile = \<lparr>localPath = [], remotePath = ''/stray.html'', sha256 = ''d4'',
                changedAt = 0, event = None\<rparr>"

section \<open>A batch as the sum of its tasks\<close>

lemma mset_completionOrder: "mset (completionOrder ps xs) = mset xs"
proof (induction ps xs rule: completionOrder.induct)
  case (3 p ps x xs)
  let ?ys = "x # xs"
  let ?i = "p mod length ?ys"
  have i: "?i < length ?ys" by simp
  have "mset ?ys = mset (take ?i ?ys @ ?ys ! ?i # drop (Suc ?i) ?ys)"
    using id_take_nth_drop [OF i] by simp
  then have "mset ?ys = add_mset (?ys ! ?i) (mset (take ?i ?ys @ drop (Suc ?i) ?ys))"
    by simp
  with 3 show ?case by (simp add: Let_def)
qed simp_all

lemma catchTask_step:
  "catchTask ss f err (r, errs) =
     (case catchTask ss f err (initialResults, []) of
        Inl e \<Rightarrow> Inl e
      | Inr (r1, e1) \<Rightarrow>
          Inr (r\<lparr>successful := successful r + successful r1,
                 failed := failed r + failed r1,
                 fileResults := fileResults r @ fileResults r1\<rparr>, errs @ e1))"
  by (simp add: catchTask_def initialResults_def split: option.split)

lemma uploadTask_step:
  "uploadTask E ss f (r, errs) =
     (case alone E ss f of
        Inl e \<Rightarrow> Inl e
      | Inr (r1, e1) \<Rightarrow>
          Inr (r\<lparr>successful := successful r + successful r1,
                 failed := failed r + failed r1,
                 fileResults := fileResults r @ fileResults r1\<rparr>, errs @ e1))"
  by (simp add: alone_def uploadTask_def catchTask_def initialResults_def Let_def
      split: upload_reply.split option.split)

lemma alone_rejects: "alone E ss f = Inl e \<Longrightarrow> e = NoStringConversion"
  by (simp add: alone_def uploadTask_def catchTask_def initialResults_def Let_def
      split: upload_reply.splits option.splits if_splits)

lemma alone_length: "alone E ss f = Inr (r1, e1) \<Longrightarrow> length (fileResults r1) = 1"
  by (auto simp add: alone_def uploadTask_def catchTask_def initialResults_def Let_def
      split: upload_reply.splits option.splits if_splits)

lemma alone_entry:
  "alone E ss f = Inr (r1, e1) \<Longrightarrow> x \<in> set (fileResults r1) \<Longrightarrow>
     file' x = remotePath f \<and> totalServers x = length ss \<and>
     success x = (1 \<le> uploadedServers x) \<and>
     successful r1 = (if success x then 1 else 0) \<and>
     failed r1 = (if success x then 0 else 1)"
  by (auto simp add: alone_def uploadTask_def catchTask_def initialResults_def Let_def
      Suc_le_eq split: upload_reply.splits option.splits if_splits)

lemma alone_counts:
  "alone E ss f = Inr (r1, e1) \<Longrightarrow>
   successful r1 = length (filter success (fileResults r1)) \<and>
   failed r1 = length (filter (\<lambda>x. \<not> success x) (fileResults r1)) \<and>
   successful r1 + failed r1 = 1"
  by (auto simp add: alone_def uploadTask_def catchTask_def initialResults_def Let_def
      split: upload_reply.splits option.splits if_splits)

lemma runTasks_settled:
  assumes "\<forall>g\<in>set fs. alone E ss g = Inr (out g)"
  shows "runTasks E ss fs (r, errs) =
     Inr (r\<lparr>successful := successful r + sum_list (map (\<lambda>g. successful (fst (out g))) fs),
            failed := failed r + sum_list (map (\<lambda>g. failed (fst (out g))) fs),
            fileResults := fileResults r @ concat (map (\<lambda>g. fileResults (fst (out g))) fs)\<rparr>,
          errs @ concat (map (\<lambda>g. snd (out g)) fs))"
  using assms
proof (induction fs arbitrary: r errs)
  case Nil
  show ?case by simp
next
  case (Cons f fs)
  obtain r1 e1 where o: "out f = (r1, e1)" by (cases "out f")
  with Cons.prems have a: "alone E ss f = Inr (r1, e1)" by simp
  from Cons.prems have rest: "\<forall>g\<in>set fs. alone E ss g = Inr (out g)" by simp
  show ?case
    by (simp add: uploadTask_step [of E ss f r errs] a o Cons.IH [OF rest] add.assoc)
qed

lemma runTasks_rejected:
  assumes "g \<in> set fs" and "alone E ss g = Inl e"
  shows "runTasks E ss fs st = Inl NoStringConversion"
  using assms(1)
proof (induction fs arbitrary: st)
  case Nil
  then show ?case by simp
next
  case (Cons f fs)
  obtain r errs where st: "st = (r, errs)" by (cases st)
  show ?case
  proof (cases "alone E ss f")
    case (Inl e')
    with alone_rejects [OF Inl] show ?thesis
      by (simp add: st uploadTask_step [of E ss f r errs])
  next
    case (Inr o)
    with assms(2) have "g \<noteq> f" by auto
    with Cons.prems have "g \<in> set fs" by simp
    from Cons.IH [OF this] Inr show ?thesis
      by (simp add: st uploadTask_step [of E ss f r errs] split: prod.split)
  qed
qed

lemma runTasks_returned:
  assumes "runTasks E ss fs st = Inr st'"
  shows "\<forall>g\<in>set fs. alone E ss g = Inr (projr (alone E ss g))"
proof
  fix g assume g: "g \<in> set fs"
  show "alone E ss g = Inr (projr (alone E ss g))"
  proof (cases "alone E ss g")
    case (Inl e)
    from runTasks_rejected [OF g Inl, of st] assms show ?thesis by simp
  next
    case (Inr o)
    then show ?thesis by simp
  qed
qed


lemma settles_perm:
  assumes "\<forall>g\<in>set fs. P g" and "mset gs = mset fs"
  shows "\<forall>g\<in>set gs. P g"
  using assms by (metis set_mset_mset)

lemma sum_list_perm:
  fixes g :: "'a \<Rightarrow> nat"
  assumes "mset xs = mset ys"
  shows "sum_list (map g xs) = sum_list (map g ys)"
proof -
  have "sum_mset (mset (map g xs)) = sum_mset (mset (map g ys))"
    using assms by (metis mset_map)
  then show ?thesis by (simp only: sum_mset_sum_list)
qed

lemma mset_concat_perm:
  assumes "mset xs = mset ys"
  shows "mset (concat (map g xs)) = mset (concat (map g ys))"
proof -
  have "sum_mset (mset (map (\<lambda>x. mset (g x)) xs)) = sum_mset (mset (map (\<lambda>x. mset (g x)) ys))"
    using assms by (metis mset_map)
  then show ?thesis by (simp only: sum_mset_sum_list mset_concat map_map comp_def)
qed

text \<open>The batch in closed form, in the order of completion.\<close>

lemma processUploads_settled:
  assumes "pubkey = Some pk" and "pk \<noteq> []" and "fs \<noteq> []" and "pLimit E (limitConcurrency options)"
    and "\<forall>g\<in>set fs. alone E ss g = Inr (out g)"
  shows "processUploads E pubkey fs ss options =
     Inr (Some \<lparr>successful = sum_list (map (\<lambda>g. successful (fst (out g))) (completionOrder (completions E) fs)),
                 failed = sum_list (map (\<lambda>g. failed (fst (out g))) (completionOrder (completions E) fs)),
                 fileResults = concat (map (\<lambda>g. fileResults (fst (out g))) (completionOrder (completions E) fs))\<rparr>,
          concat (map (\<lambda>g. snd (out g)) (completionOrder (completions E) fs)))"
proof -
  have "\<forall>g\<in>set (completionOrder (completions E) fs). alone E ss g = Inr (out g)"
    using settles_perm [OF assms(5) mset_completionOrder] .
  from runTasks_settled [OF this, of initialResults "[]"] assms(1-4)
  show ?thesis by (simp add: processUploads_def initialResults_def)
qed

lemma processUploads_rejected:
  assumes "pubkey = Some pk" and "pk \<noteq> []" and "pLimit E (limitConcurrency options)"
    and "g \<in> set fs" and "alone E ss g = Inl e"
  shows "processUploads E pubkey fs ss options = Inl NoStringConversion"
proof -
  have ne: "fs \<noteq> []" using assms(4) by auto
  have "g \<in> set (completionOrder (completions E) fs)"
    using assms(4) mset_completionOrder [of "completions E" fs] by (metis set_mset_mset)
  from runTasks_rejected [OF this assms(5), of "(initialResults, [])"] assms(1-3) ne
  show ?thesis by (simp add: processUploads_def)
qed

lemma processUploads_returned:
  assumes "processUploads E pubkey fs ss options = Inr (Some results, errs)"
  shows "fs \<noteq> []"
    and "\<forall>g\<in>set fs. alone E ss g = Inr (projr (alone E ss g))"
    and "results =
      \<lparr>successful = sum_list (map (\<lambda>g. successful (fst (projr (alone E ss g)))) (completionOrder (completions E) fs)),
       failed = sum_list (map (\<lambda>g. failed (fst (projr (alone E ss g)))) (completionOrder (completions E) fs)),
       fileResults = concat (map (\<lambda>g. fileResults (fst (projr (alone E ss g)))) (completionOrder (completions E) fs))\<rparr>"
    and "errs = concat (map (\<lambda>g. snd (projr (alone E ss g))) (completionOrder (completions E) fs))"
proof -
  from assms show ne: "fs \<noteq> []"
    by (auto simp add: processUploads_def split: if_splits)
  from assms obtain pk where pk: "pubkey = Some pk" "pk \<noteq> []"
    by (cases pubkey) (auto simp add: processUploads_def split: if_splits)
  from assms have lim: "pLimit E (limitConcurrency options)"
    by (auto simp add: processUploads_def split: if_splits)
  from assms obtain st where
    "runTasks E ss (completionOrder (completions E) fs) (initialResults, []) = Inr st"
    by (auto simp add: processUploads_def split: if_splits sum.splits)
  from runTasks_returned [OF this]
  have "\<forall>g\<in>set (completionOrder (completions E) fs). alone E ss g = Inr (projr (alone E ss g))" .
  then show all: "\<forall>g\<in>set fs. alone E ss g = Inr (projr (alone E ss g))"
    using mset_completionOrder [of "completions E" fs] by (metis set_mset_mset)
  from processUploads_settled [OF pk ne lim all] assms
  show "results =
      \<lparr>successful = sum_list (map (\<lambda>g. successful (fst (projr (alone E ss g)))) (completionOrder (completions E) fs)),
       failed = sum_list (map (\<lambda>g. failed (fst (projr (alone E ss g)))) (completionOrder (completions E) fs)),
       fileResults = concat (map (\<lambda>g. fileResults (fst (projr (alone E ss g)))) (completionOrder (completions E) fs))\<rparr>"
    and "errs = concat (map (\<lambda>g. snd (projr (alone E ss g))) (completionOrder (completions E) fs))"
    by simp_all
qed

lemma out_single:
  assumes "alone E ss f = Inr (out f)"
  obtains x where "fileResults (fst (out f)) = [x]"
proof -
  obtain r1 e1 where o: "out f = (r1, e1)" by (cases "out f")
  with assms have "length (fileResults r1) = 1" using alone_length [of E ss f r1 e1] by simp
  then obtain x where "fileResults r1 = [x]" by (cases "fileResults r1") auto
  with o that show ?thesis by simp
qed

lemma concat_out_length:
  assumes "\<forall>g\<in>set fs. alone E ss g = Inr (out g)"
  shows "length (concat (map (\<lambda>g. fileResults (fst (out g))) fs)) = length fs"
  using assms
proof (induction fs)
  case Nil
  show ?case by simp
next
  case (Cons f fs)
  from Cons.prems have "alone E ss f = Inr (out f)" by simp
  then obtain x where "fileResults (fst (out f)) = [x]" by (rule out_single)
  with Cons show ?case by simp
qed

lemma concat_out_names:
  assumes "\<forall>g\<in>set fs. alone E ss g = Inr (out g)"
  shows "map file' (concat (map (\<lambda>g. fileResults (fst (out g))) fs)) = map remotePath fs"
  using assms
proof (induction fs)
  case Nil
  show ?case by simp
next
  case (Cons f fs)
  from Cons.prems have a: "alone E ss f = Inr (fst (out f), snd (out f))" by simp
  from Cons.prems have "alone E ss f = Inr (out f)" by simp
  then obtain x where x: "fileResults (fst (out f)) = [x]" by (rule out_single)
  then have "file' x = remotePath f" using alone_entry [OF a, of x] by simp
  with x Cons show ?case by simp
qed

lemma sum_out_counts:
  assumes "\<forall>g\<in>set fs. alone E ss g = Inr (out g)"
  shows "sum_list (map (\<lambda>g. successful (fst (out g))) fs) +
         sum_list (map (\<lambda>g. failed (fst (out g))) fs) = length fs"
  using assms
proof (induction fs)
  case Nil
  show ?case by simp
next
  case (Cons f fs)
  from Cons.prems have a: "alone E ss f = Inr (fst (out f), snd (out f))" by simp
  from Cons show ?case using alone_counts [OF a] by simp
qed


text \<open>A batch that returned, file by file and up to the order of completion.\<close>

lemma returned_fileResults:
  assumes "processUploads E pubkey fs ss options = Inr (Some results, errs)"
  shows "mset (fileResults results)
       = mset (concat (map (\<lambda>g. fileResults (fst (projr (alone E ss g)))) fs))"
  using processUploads_returned(3) [OF assms]
    mset_concat_perm [OF mset_completionOrder,
      of "\<lambda>g. fileResults (fst (projr (alone E ss g)))" "completions E" fs]
  by simp


lemma returned_counters:
  assumes "processUploads E pubkey fs ss options = Inr (Some results, errs)"
  shows "successful results = sum_list (map (\<lambda>g. successful (fst (projr (alone E ss g)))) fs)"
    and "failed results = sum_list (map (\<lambda>g. failed (fst (projr (alone E ss g)))) fs)"
  using processUploads_returned(3) [OF assms]
    sum_list_perm [OF mset_completionOrder, of _ "completions E" fs]
  by simp_all

lemma returned_entries:
  assumes "processUploads E pubkey fs ss options = Inr (Some results, errs)"
  shows "set (fileResults results) = (\<Union>g\<in>set fs. set (fileResults (fst (projr (alone E ss g)))))"
proof -
  have "set_mset (mset (fileResults results)) =
        set_mset (mset (concat (map (\<lambda>g. fileResults (fst (projr (alone E ss g)))) fs)))"
    by (simp only: returned_fileResults [OF assms])
  then show ?thesis by auto
qed



lemma concat_singletons:
  assumes "\<forall>g\<in>set fs. h g = [k g]"
  shows "concat (map h fs) = map k fs"
  using assms by (induction fs) simp_all


lemma alone_recorded:
  assumes "alone E ss f = Inr (r1, e1)"
  shows "fileResults r1 =
     [let n = (case readFileSync E (localPath f) of
                 Some _ \<Rightarrow> 0
               | None \<Rightarrow>
                   if fileName (localPath f) = [] then 0
                   else case multiServerUpload E ss f of
                     UploadThrows _ \<Rightarrow> 0
                   | UploadReturns uploads \<Rightarrow>
                       if uploads = [] then 0
                       else case publishNSiteEvent E (remotePath f) (sha256 f) of
                         Some _ \<Rightarrow> 0
                       | None \<Rightarrow> length uploads)
      in \<lparr>file' = remotePath f, success = (1 \<le> n), uploadedServers = n,
           totalServers = length ss\<rparr>]"
  using assms
  by (auto simp add: alone_def uploadTask_def catchTask_def initialResults_def Let_def
      Suc_le_eq split: upload_reply.splits option.splits if_splits)



lemma runTasks_error: "runTasks E ss fs st = Inl e \<Longrightarrow> e = NoStringConversion"
proof (induction fs arbitrary: st)
  case Nil
  then show ?case by simp
next
  case (Cons f fs)
  obtain r errs where st: "st = (r, errs)" by (cases st)
  show ?case
  proof (cases "alone E ss f")
    case (Inl e')
    with alone_rejects [OF Inl] Cons.prems show ?thesis
      by (simp add: st uploadTask_step [of E ss f r errs])
  next
    case (Inr o)
    with Cons.prems Cons.IH show ?thesis
      by (auto simp add: st uploadTask_step [of E ss f r errs] split: prod.splits)
  qed
qed

lemma limit_rejected_iff:
  "processUploads E (Some (c # pk)) (f # fs) ss options = Inl LimitRejected
     \<longleftrightarrow> \<not> pLimit E (limitConcurrency options)"
proof (cases "pLimit E (limitConcurrency options)")
  case False
  then show ?thesis by (simp add: processUploads_def)
next
  case True
  have "processUploads E (Some (c # pk)) (f # fs) ss options \<noteq> Inl LimitRejected"
  proof
    assume "processUploads E (Some (c # pk)) (f # fs) ss options = Inl LimitRejected"
    with True have "runTasks E ss (completionOrder (completions E) (f # fs)) (initialResults, [])
        = Inl LimitRejected"
      by (simp add: processUploads_def split: sum.splits prod.splits)
    from runTasks_error [OF this] show False by simp
  qed
  with True show ?thesis by simp
qed

text \<open>The definitions that the example batches unfold.\<close>

lemmas demo_defs = demoEnv_def fileA_def fileB_def fileU_def fileM_def fileT_def fileO_def
  noOptions_def processUploads_def limitConcurrency_def truthy_def uploadTask_def
  catchTask_def String_def noFileName_def initialResults_def fileName_def Let_def

section \<open>The default concurrency\<close>

lemma parseInt_empty: "parseInt [] = NaN"
  by (simp add: parseInt_def)

lemma cli_limit:
  "limitConcurrency (cliUploadOptions (Some s)) = (if truthy (parseInt s) then parseInt s else Num 5)"
  by (cases "s = []") (simp_all add: limitConcurrency_def cliUploadOptions_def parseInt_empty truthy_def)

text \<open>
  Claim C10. A concurrency option of \<open>0\<close> or NaN is falsy, so line 38 replaces it by the
  default, and the batch upload uses 5: the limiter is created with 5 (the call throws what
  \<open>pLimit\<close> throws exactly when \<open>pLimit\<close> refuses 5, whatever it does with 0 or NaN), and the
  batch runs exactly as with the option 5. The same holds through the command line, where
  the option string is parsed with \<open>parseInt\<close>: a string that parses to NaN or to 0 (such as
  \<open>abc\<close> or \<open>0\<close>) gives the limit 5, and any other string the number it parses to.
\<close>

theorem falsy_concurrency_is_default:
  "limitConcurrency \<lparr>concurrency = Some (Num 0)\<rparr> = Num 5
   \<and> limitConcurrency \<lparr>concurrency = Some NaN\<rparr> = Num 5
   \<and> limitConcurrency \<lparr>concurrency = None\<rparr> = Num 5
   \<and> (processUploads E (Some (c # pk)) (f # fs) ss \<lparr>concurrency = Some (Num 0)\<rparr> = Inl LimitRejected
        \<longleftrightarrow> \<not> pLimit E (Num 5))
   \<and> (processUploads E (Some (c # pk)) (f # fs) ss \<lparr>concurrency = Some NaN\<rparr> = Inl LimitRejected
        \<longleftrightarrow> \<not> pLimit E (Num 5))
   \<and> (processUploads E (Some (c # pk)) (f # fs) ss \<lparr>concurrency = None\<rparr> = Inl LimitRejected
        \<longleftrightarrow> \<not> pLimit E (Num 5))
   \<and> processUploads E pubkey files ss \<lparr>concurrency = Some (Num 0)\<rparr>
       = processUploads E pubkey files ss \<lparr>concurrency = Some (Num 5)\<rparr>
   \<and> processUploads E pubkey files ss \<lparr>concurrency = Some NaN\<rparr>
       = processUploads E pubkey files ss \<lparr>concurrency = Some (Num 5)\<rparr>
   \<and> limitConcurrency (cliUploadOptions (Some s))
       = (if parseInt s = NaN \<or> parseInt s = Num 0 then Num 5 else parseInt s)
   \<and> (processUploads E (Some (c # pk)) (f # fs) ss (cliUploadOptions (Some s)) = Inl LimitRejected
        \<longleftrightarrow> \<not> pLimit E (if parseInt s = NaN \<or> parseInt s = Num 0 then Num 5 else parseInt s))
   \<and> parseInt (codeUnits ''0'') = Num 0 \<and> parseInt (codeUnits ''abc'') = NaN
   \<and> limitConcurrency (cliUploadOptions (Some (codeUnits ''0''))) = Num 5
   \<and> limitConcurrency (cliUploadOptions (Some (codeUnits ''abc''))) = Num 5"
proof -
  have lim: "limitConcurrency \<lparr>concurrency = Some (Num 0)\<rparr> = Num 5"
    "limitConcurrency \<lparr>concurrency = Some NaN\<rparr> = Num 5"
    "limitConcurrency \<lparr>concurrency = None\<rparr> = Num 5"
    "limitConcurrency \<lparr>concurrency = Some (Num 5)\<rparr> = Num 5"
    by (simp_all add: limitConcurrency_def truthy_def)
  have pin: "processUploads E (Some (c # pk)) (f # fs) ss \<lparr>concurrency = Some (Num 0)\<rparr> = Inl LimitRejected
        \<longleftrightarrow> \<not> pLimit E (Num 5)"
    "processUploads E (Some (c # pk)) (f # fs) ss \<lparr>concurrency = Some NaN\<rparr> = Inl LimitRejected
        \<longleftrightarrow> \<not> pLimit E (Num 5)"
    "processUploads E (Some (c # pk)) (f # fs) ss \<lparr>concurrency = None\<rparr> = Inl LimitRejected
        \<longleftrightarrow> \<not> pLimit E (Num 5)"
    by (simp_all only: limit_rejected_iff lim)
  have run: "processUploads E pubkey files ss \<lparr>concurrency = Some (Num 0)\<rparr>
       = processUploads E pubkey files ss \<lparr>concurrency = Some (Num 5)\<rparr>"
    "processUploads E pubkey files ss \<lparr>concurrency = Some NaN\<rparr>
       = processUploads E pubkey files ss \<lparr>concurrency = Some (Num 5)\<rparr>"
    by (simp_all only: processUploads_def lim)
  have cli: "limitConcurrency (cliUploadOptions (Some s))
       = (if parseInt s = NaN \<or> parseInt s = Num 0 then Num 5 else parseInt s)"
    by (cases "parseInt s") (simp_all add: cli_limit truthy_def)
  have clipin: "processUploads E (Some (c # pk)) (f # fs) ss (cliUploadOptions (Some s)) = Inl LimitRejected
        \<longleftrightarrow> \<not> pLimit E (if parseInt s = NaN \<or> parseInt s = Num 0 then Num 5 else parseInt s)"
    by (simp only: limit_rejected_iff cli)
  have p0: "parseInt (codeUnits ''0'') = Num 0"
    by (simp add: parseInt_def codeUnits_def isWhiteSpace_def isDigit_def digitValue_def
        numberOf_def bitLength.simps)
  have pa: "parseInt (codeUnits ''abc'') = NaN"
    by (simp add: parseInt_def codeUnits_def isWhiteSpace_def isDigit_def digitValue_def)
  have c0: "limitConcurrency (cliUploadOptions (Some (codeUnits ''0''))) = Num 5"
    by (simp add: cli_limit p0 truthy_def)
  have ca: "limitConcurrency (cliUploadOptions (Some (codeUnits ''abc''))) = Num 5"
    by (simp add: cli_limit pa truthy_def)
  from lim(1-3) pin run cli clipin p0 pa c0 ca show ?thesis by blast
qed

section \<open>What a batch returns\<close>




text \<open>
  Claim C9. When the call on a non-empty list returns, it returns the \<open>results\<close> object,
  the two counters add up to the number of input files, \<open>fileResults\<close> has one entry for
  each input file (as many entries as files, and the same remote paths with the same
  multiplicities), and every entry's \<open>totalServers\<close> is the number of servers.
\<close>

theorem batch_tally_complete:
  assumes "filesToUpload \<noteq> []"
    and "processUploads E pubkey filesToUpload blossomServers options = Inr out"
  shows "\<exists>results errs. out = (Some results, errs)
    \<and> successful results + failed results = length filesToUpload
    \<and> length (fileResults results) = length filesToUpload
    \<and> mset (map file' (fileResults results)) = mset (map remotePath filesToUpload)
    \<and> (\<forall>x\<in>set (fileResults results). totalServers x = length blossomServers)"
proof -
  obtain results errs where out: "out = (Some results, errs)"
    using assms by (auto simp add: processUploads_def split: if_splits sum.splits prod.splits)
  have run: "processUploads E pubkey filesToUpload blossomServers options = Inr (Some results, errs)"
    using assms(2) out by simp
  let ?g = "\<lambda>f. fileResults (fst (projr (alone E blossomServers f)))"
  note all = processUploads_returned(2) [OF run]
  have perm: "mset (fileResults results) = mset (concat (map ?g filesToUpload))"
    by (rule returned_fileResults [OF run])
  have "successful results + failed results = length filesToUpload"
    by (simp add: returned_counters [OF run] sum_out_counts [OF all])
  moreover have "length (fileResults results) = length filesToUpload"
    using perm concat_out_length [OF all] by (metis size_mset)
  moreover have "mset (map file' (fileResults results)) = mset (map remotePath filesToUpload)"
    using perm concat_out_names [OF all] by (metis mset_map)
  moreover have "\<forall>x\<in>set (fileResults results). totalServers x = length blossomServers"
  proof
    fix x assume "x \<in> set (fileResults results)"
    then obtain g where g: "g \<in> set filesToUpload"
      and x: "x \<in> set (fileResults (fst (projr (alone E blossomServers g))))"
      using returned_entries [OF run] by auto
    from all g have "alone E blossomServers g
        = Inr (fst (projr (alone E blossomServers g)), snd (projr (alone E blossomServers g)))"
      by simp
    from alone_entry [OF this x] show "totalServers x = length blossomServers" by simp
  qed
  ultimately show ?thesis using out by blast
qed

theorem batch_tally_complete_witness:
  "[fileA, fileB, fileU] \<noteq> []
   \<and> processUploads demoEnv (Some ''pk'') [fileA, fileB, fileU] [''s1'', ''s2''] noOptions
       = Inr (Some \<lparr>successful = 1, failed = 2, fileResults =
           [\<lparr>file' = ''/b.html'', success = True, uploadedServers = 1, totalServers = 2\<rparr>,
            \<lparr>file' = ''/a.html'', success = False, uploadedServers = 0, totalServers = 2\<rparr>,
            \<lparr>file' = ''/unpublished.html'', success = False, uploadedServers = 0, totalServers = 2\<rparr>]\<rparr>,
           [ErrorUploading ''site/unpublished.html'' (Printable ''Error: publish'')])
   \<and> (\<exists>results errs.
        processUploads demoEnv (Some ''pk'') [fileA, fileB, fileU] [''s1'', ''s2''] noOptions
          = Inr (Some results, errs)
      \<and> successful results + failed results = 3
      \<and> length (fileResults results) = 3
      \<and> mset (map file' (fileResults results)) = mset (map remotePath [fileA, fileB, fileU])
      \<and> (\<forall>x\<in>set (fileResults results). totalServers x = 2))"
proof -
  have h1: "[fileA, fileB, fileU] \<noteq> []" by simp
  have run: "processUploads demoEnv (Some ''pk'') [fileA, fileB, fileU] [''s1'', ''s2''] noOptions
       = Inr (Some \<lparr>successful = 1, failed = 2, fileResults =
           [\<lparr>file' = ''/b.html'', success = True, uploadedServers = 1, totalServers = 2\<rparr>,
            \<lparr>file' = ''/a.html'', success = False, uploadedServers = 0, totalServers = 2\<rparr>,
            \<lparr>file' = ''/unpublished.html'', success = False, uploadedServers = 0, totalServers = 2\<rparr>]\<rparr>,
           [ErrorUploading ''site/unpublished.html'' (Printable ''Error: publish'')])"
    by (simp add: demo_defs)
  from batch_tally_complete [OF h1 run] h1 run show ?thesis by simp
qed

section \<open>The outcome of a file\<close>

text \<open>
  Claim C3, as stated, fails when the publish call throws: of three servers exactly one
  stores the blob, and the file is recorded with \<open>success = False\<close> and no uploaded
  server.
\<close>

theorem one_of_three_publish_fails:
  "multiServerUpload demoEnv [''s1'', ''s2'', ''s3''] fileU = UploadReturns [''s2'']
   \<and> processUploads demoEnv (Some ''pk'') [fileU] [''s1'', ''s2'', ''s3''] noOptions
       = Inr (Some \<lparr>successful = 0, failed = 1, fileResults =
           [\<lparr>file' = ''/unpublished.html'', success = False, uploadedServers = 0,
             totalServers = 3\<rparr>]\<rparr>,
           [ErrorUploading ''site/unpublished.html'' (Printable ''Error: publish'')])"
  by (simp add: demo_defs)

text \<open>
  Claim C3, amended. In a batch that returned, the recorded outcomes are, file by file,
  exactly these: \<open>uploadedServers\<close> is the number of servers that stored the blob when the
  file was read, has a file name, its \<open>multiServerUpload\<close> returned and its publish call
  (made when a server stored the blob) returned, and 0 for every other file; and \<open>success\<close>
  holds exactly when that number is at least 1. So a file is recorded as a success exactly
  when at least one server stored it and its publish call returned: with three servers of
  which one stores the blob and a publish call that returns, \<open>success = True\<close> and
  \<open>uploadedServers = 1\<close>.
\<close>

theorem success_iff_stored_and_published:
  assumes "processUploads E pubkey filesToUpload blossomServers options = Inr (Some results, errs)"
    and "f \<in> set filesToUpload"
  shows "mset (fileResults results) =
      mset (map (\<lambda>g.
        let n = (case readFileSync E (localPath g) of
                   Some _ \<Rightarrow> 0
                 | None \<Rightarrow>
                     if fileName (localPath g) = [] then 0
                     else case multiServerUpload E blossomServers g of
                       UploadThrows _ \<Rightarrow> 0
                     | UploadReturns uploads \<Rightarrow>
                         if uploads = [] then 0
                         else case publishNSiteEvent E (remotePath g) (sha256 g) of
                           Some _ \<Rightarrow> 0
                         | None \<Rightarrow> length uploads)
        in \<lparr>file' = remotePath g, success = (1 \<le> n), uploadedServers = n,
             totalServers = length blossomServers\<rparr>) filesToUpload)
    \<and> (let n = (case readFileSync E (localPath f) of
                   Some _ \<Rightarrow> 0
                 | None \<Rightarrow>
                     if fileName (localPath f) = [] then 0
                     else case multiServerUpload E blossomServers f of
                       UploadThrows _ \<Rightarrow> 0
                     | UploadReturns uploads \<Rightarrow>
                         if uploads = [] then 0
                         else case publishNSiteEvent E (remotePath f) (sha256 f) of
                           Some _ \<Rightarrow> 0
                         | None \<Rightarrow> length uploads)
        in \<lparr>file' = remotePath f, success = (1 \<le> n), uploadedServers = n,
             totalServers = length blossomServers\<rparr>) \<in> set (fileResults results)
    \<and> (\<forall>x\<in>set (fileResults results). success x = (1 \<le> uploadedServers x))"
proof -
  define entry where "entry = (\<lambda>g.
        let n = (case readFileSync E (localPath g) of
                   Some _ \<Rightarrow> 0
                 | None \<Rightarrow>
                     if fileName (localPath g) = [] then 0
                     else case multiServerUpload E blossomServers g of
                       UploadThrows _ \<Rightarrow> 0
                     | UploadReturns uploads \<Rightarrow>
                         if uploads = [] then 0
                         else case publishNSiteEvent E (remotePath g) (sha256 g) of
                           Some _ \<Rightarrow> 0
                         | None \<Rightarrow> length uploads)
        in \<lparr>file' = remotePath g, success = (1 \<le> n), uploadedServers = n,
             totalServers = length blossomServers\<rparr>)"
  have own: "success (entry g) = (1 \<le> uploadedServers (entry g))" for g
    unfolding entry_def by (simp only: Let_def FileResult.simps)
  note all = processUploads_returned(2) [OF assms(1)]
  have single: "\<forall>g\<in>set filesToUpload.
      fileResults (fst (projr (alone E blossomServers g))) = [entry g]"
  proof
    fix g assume "g \<in> set filesToUpload"
    with all have "alone E blossomServers g
        = Inr (fst (projr (alone E blossomServers g)), snd (projr (alone E blossomServers g)))"
      by simp
    from alone_recorded [OF this]
    show "fileResults (fst (projr (alone E blossomServers g))) = [entry g]"
      unfolding entry_def .
  qed
  have "concat (map (\<lambda>g. fileResults (fst (projr (alone E blossomServers g)))) filesToUpload)
        = map entry filesToUpload"
    by (rule concat_singletons [OF single])
  with returned_fileResults [OF assms(1)]
  have m: "mset (fileResults results) = mset (map entry filesToUpload)" by (simp only:)
  then have s: "set (fileResults results) = entry ` set filesToUpload"
    by (metis set_mset_mset set_map)
  with assms(2) have e: "entry f \<in> set (fileResults results)" by blast
  have i: "\<forall>x\<in>set (fileResults results). success x = (1 \<le> uploadedServers x)"
    using s own by auto
  from m e i show ?thesis unfolding entry_def by blast
qed

theorem success_iff_stored_and_published_witness:
  "processUploads demoEnv (Some ''pk'') [fileB, fileT, fileU] [''s1'', ''s2'', ''s3''] noOptions
       = Inr (Some \<lparr>successful = 1, failed = 2, fileResults =
           [\<lparr>file' = ''/throws.html'', success = False, uploadedServers = 0, totalServers = 3\<rparr>,
            \<lparr>file' = ''/b.html'', success = True, uploadedServers = 1, totalServers = 3\<rparr>,
            \<lparr>file' = ''/unpublished.html'', success = False, uploadedServers = 0, totalServers = 3\<rparr>]\<rparr>,
           [ErrorUploading ''site/throws.html'' (Printable ''Error: upload''),
            ErrorUploading ''site/unpublished.html'' (Printable ''Error: publish'')])
   \<and> fileB \<in> set [fileB, fileT, fileU]
   \<and> multiServerUpload demoEnv [''s1'', ''s2'', ''s3''] fileB = UploadReturns [''s2'']
   \<and> \<lparr>file' = ''/b.html'', success = True, uploadedServers = 1, totalServers = 3\<rparr>
      \<in> set [\<lparr>file' = ''/throws.html'', success = False, uploadedServers = 0, totalServers = 3\<rparr>,
              \<lparr>file' = ''/b.html'', success = True, uploadedServers = 1, totalServers = 3\<rparr>,
              \<lparr>file' = ''/unpublished.html'', success = False, uploadedServers = 0, totalServers = 3\<rparr>]"
proof -
  let ?r = "\<lparr>successful = 1, failed = 2, fileResults =
           [\<lparr>file' = ''/throws.html'', success = False, uploadedServers = 0, totalServers = 3\<rparr>,
            \<lparr>file' = ''/b.html'', success = True, uploadedServers = 1, totalServers = 3\<rparr>,
            \<lparr>file' = ''/unpublished.html'', success = False, uploadedServers = 0, totalServers = 3\<rparr>]\<rparr>"
  have h1: "processUploads demoEnv (Some ''pk'') [fileB, fileT, fileU] [''s1'', ''s2'', ''s3''] noOptions
       = Inr (Some ?r, [ErrorUploading ''site/throws.html'' (Printable ''Error: upload''),
            ErrorUploading ''site/unpublished.html'' (Printable ''Error: publish'')])"
    by (simp add: demo_defs)
  have h2: "fileB \<in> set [fileB, fileT, fileU]" by simp
  have up: "multiServerUpload demoEnv [''s1'', ''s2'', ''s3''] fileB = UploadReturns [''s2'']"
    by (simp add: demo_defs)
  from success_iff_stored_and_published [OF h1 h2] h1 h2 up
  show ?thesis by simp
qed







section \<open>The trace of a purge\<close>

lemma calls_append: "calls (xs @ ys) = calls xs @ calls ys"
  by (simp add: calls_def)

lemma deleteBlobs_trace:
  "\<exists>dels. deleteBlobs P h a ss tr = tr @ dels \<and> calls dels = map (\<lambda>s. DeleteBlob s h a) ss"
proof (induction ss arbitrary: tr)
  case Nil
  show ?case by (simp add: calls_def)
next
  case (Cons s ss)
  let ?tr' = "if deleteBlob P tr s h a then tr @ [DeleteBlob s h a]
        else tr @ [DeleteBlob s h a, ConsoleError (ErrorDeletingBlob h s)]"
  obtain step where step: "?tr' = tr @ step" and cs: "calls step = [DeleteBlob s h a]"
    by (cases "deleteBlob P tr s h a") (simp_all add: calls_def isCall_def)
  from Cons.IH [of ?tr'] obtain dels where
    d: "deleteBlobs P h a ss ?tr' = ?tr' @ dels" and cd: "calls dels = map (\<lambda>s. DeleteBlob s h a) ss"
    by blast
  have "deleteBlobs P h a (s # ss) tr = tr @ (step @ dels)"
    using d step by simp
  moreover have "calls (step @ dels) = map (\<lambda>s. DeleteBlob s h a) (s # ss)"
    using cs cd by (simp add: calls_append)
  ultimately show ?case by blast
qed

lemma deleteEvent_trace:
  "deleteEvent P e tr = tr @ EventDelete e #
     (if eventDelete P tr e then [] else [ConsoleError (ErrorDeletingEvent e)])"
  by (simp add: deleteEvent_def)

lemma purgeFiles_append:
  "purgeFiles P ss (pre @ post) tr =
     (if snd (purgeFiles P ss pre tr) then purgeFiles P ss post (fst (purgeFiles P ss pre tr))
      else purgeFiles P ss pre tr)"
  by (induction pre arbitrary: tr) (simp_all split: option.split)

lemma purgeFiles_skip:
  assumes "event f = None"
  shows "purgeFiles P ss (f # fs) tr = purgeFiles P ss fs tr"
  using assms by simp

lemma purge_file_trace:
  assumes "event f = Some e" and "createDeleteAuth P tr (sha256 f) = Some a"
  shows "\<exists>dels. purgeFiles P ss (f # post) tr =
      purgeFiles P ss post
        (tr @ CreateDeleteAuth (sha256 f) # dels @ EventDelete e #
           (if eventDelete P (tr @ CreateDeleteAuth (sha256 f) # dels) e then []
            else [ConsoleError (ErrorDeletingEvent e)]))
    \<and> calls dels = map (\<lambda>s. DeleteBlob s (sha256 f) a) ss"
proof -
  obtain dels where
    d: "deleteBlobs P (sha256 f) a ss (tr @ [CreateDeleteAuth (sha256 f)])
          = (tr @ [CreateDeleteAuth (sha256 f)]) @ dels"
    and c: "calls dels = map (\<lambda>s. DeleteBlob s (sha256 f) a) ss"
    using deleteBlobs_trace [of P "sha256 f" a ss "tr @ [CreateDeleteAuth (sha256 f)]"] by blast
  have "purgeFiles P ss (f # post) tr =
      purgeFiles P ss post
        (tr @ CreateDeleteAuth (sha256 f) # dels @ EventDelete e #
           (if eventDelete P (tr @ CreateDeleteAuth (sha256 f) # dels) e then []
            else [ConsoleError (ErrorDeletingEvent e)]))"
    using assms d by (simp add: deleteEvent_trace)
  with c show ?thesis by blast
qed

lemma no_retraction_among_deletions:
  assumes "calls dels = map (\<lambda>s. DeleteBlob s h a) ss"
  shows "filter (\<lambda>x. x = EventDelete e) dels = []"
proof -
  have "filter (\<lambda>x. x = EventDelete e) (calls dels) = []"
    unfolding assms by (induction ss) simp_all
  moreover have "filter (\<lambda>x. x = EventDelete e) (calls dels) = filter (\<lambda>x. x = EventDelete e) dels"
    unfolding calls_def filter_filter
    by (rule filter_cong) (auto simp add: isCall_def)
  ultimately show ?thesis by simp
qed

lemma purgeFiles_extends: "\<exists>rest. fst (purgeFiles P ss fs tr) = tr @ rest"
proof (induction fs arbitrary: tr)
  case Nil
  show ?case by simp
next
  case (Cons f fs)
  show ?case
  proof (cases "event f")
    case None
    with Cons.IH [of tr] show ?thesis by simp
  next
    case (Some e)
    show ?thesis
    proof (cases "createDeleteAuth P tr (sha256 f)")
      case None
      with Some show ?thesis by simp
    next
      case (Some a)
      from purge_file_trace [OF \<open>event f = Some e\<close> Some, of ss fs]
      obtain seg where "purgeFiles P ss (f # fs) tr = purgeFiles P ss fs (tr @ seg)"
        by blast
      with Cons.IH [of "tr @ seg"] show ?thesis by auto
    qed
  qed
qed

text \<open>The definitions that the example purges unfold.\<close>

lemmas purge_demo_defs = demoPurgeEnv_def oldFile_def staleFile_def unsignedFile_def
  strayFile_def purge_def deleteEvent_def

text \<open>
  Claim C5, as stated, fails when the signing of the delete authorization throws: line 199
  is outside the two \<open>try\<close> blocks of the loop, so the loop is left at once. The file has
  a source record, and neither a deletion nor the retraction of its event is attempted.
\<close>

theorem signing_failure_stops_the_purge:
  "event unsignedFile = Some ''ev0''
   \<and> purge demoPurgeEnv True [''s1'', ''s2''] [unsignedFile]
       = ([CreateDeleteAuth ''bad'', ConsoleError FailedToFetchOnlineFiles], False)"
  by (simp add: purge_demo_defs)

text \<open>
  Claim C5, amended. For a file with a source record that the loop reaches (no signing
  threw for an earlier file) and whose own delete authorization is signed: whatever the
  deletions on the servers do, one deletion is attempted on every server, in order, and
  then the event is retracted, exactly once; a retraction that throws is written to the
  console; and the loop goes on with the files that follow, the file itself never being
  taken up again. All of it stays in the trace of the whole loop.
\<close>

theorem retraction_once_after_deletions:
  assumes "event f = Some e"
    and "purgeFiles P blossomServers pre tr0 = (tr, True)"
    and "createDeleteAuth P tr (sha256 f) = Some deleteAuth"
  shows "\<exists>dels tail rest.
      purgeFiles P blossomServers (pre @ f # post) tr0
        = purgeFiles P blossomServers post
            (tr @ CreateDeleteAuth (sha256 f) # dels @ EventDelete e # tail)
    \<and> fst (purgeFiles P blossomServers (pre @ f # post) tr0)
        = tr @ CreateDeleteAuth (sha256 f) # dels @ EventDelete e # tail @ rest
    \<and> calls dels = map (\<lambda>s. DeleteBlob s (sha256 f) deleteAuth) blossomServers
    \<and> tail = (if eventDelete P (tr @ CreateDeleteAuth (sha256 f) # dels) e then []
              else [ConsoleError (ErrorDeletingEvent e)])
    \<and> length (filter (\<lambda>x. x = EventDelete e)
         (CreateDeleteAuth (sha256 f) # dels @ EventDelete e # tail)) = 1"
proof -
  from purge_file_trace [OF assms(1) assms(3), of blossomServers post]
  obtain dels where
    step: "purgeFiles P blossomServers (f # post) tr =
      purgeFiles P blossomServers post
        (tr @ CreateDeleteAuth (sha256 f) # dels @ EventDelete e #
           (if eventDelete P (tr @ CreateDeleteAuth (sha256 f) # dels) e then []
            else [ConsoleError (ErrorDeletingEvent e)]))"
    and c: "calls dels = map (\<lambda>s. DeleteBlob s (sha256 f) deleteAuth) blossomServers"
    by blast
  define tail where "tail = (if eventDelete P (tr @ CreateDeleteAuth (sha256 f) # dels) e then []
            else [ConsoleError (ErrorDeletingEvent e)])"
  let ?seg = "CreateDeleteAuth (sha256 f) # dels @ EventDelete e # tail"
  have whole: "purgeFiles P blossomServers (pre @ f # post) tr0
        = purgeFiles P blossomServers post (tr @ ?seg)"
    using purgeFiles_append [of P blossomServers pre "f # post" tr0] assms(2) step
    by (simp add: tail_def)
  obtain rest where "fst (purgeFiles P blossomServers post (tr @ ?seg)) = (tr @ ?seg) @ rest"
    using purgeFiles_extends [of P blossomServers post "tr @ ?seg"] by blast
  with whole have final: "fst (purgeFiles P blossomServers (pre @ f # post) tr0)
        = tr @ CreateDeleteAuth (sha256 f) # dels @ EventDelete e # tail @ rest"
    by simp
  have "filter (\<lambda>x. x = EventDelete e) tail = []"
    by (simp add: tail_def)
  then have once: "length (filter (\<lambda>x. x = EventDelete e) ?seg) = 1"
    using no_retraction_among_deletions [OF c, of e] by simp
  from whole final c once tail_def show ?thesis by blast
qed

theorem retraction_once_after_deletions_witness:
  "event oldFile = Some ''ev1''
   \<and> purgeFiles demoPurgeEnv [''s1'', ''s2''] [staleFile] []
       = ([CreateDeleteAuth ''d4'', DeleteBlob ''s1'' ''d4'' ''auth-d4'',
           ConsoleError (ErrorDeletingBlob ''d4'' ''s1''),
           DeleteBlob ''s2'' ''d4'' ''auth-d4'', EventDelete ''ev2'',
           ConsoleError (ErrorDeletingEvent ''ev2'')], True)
   \<and> createDeleteAuth demoPurgeEnv
        [CreateDeleteAuth ''d4'', DeleteBlob ''s1'' ''d4'' ''auth-d4'',
         ConsoleError (ErrorDeletingBlob ''d4'' ''s1''),
         DeleteBlob ''s2'' ''d4'' ''auth-d4'', EventDelete ''ev2'',
         ConsoleError (ErrorDeletingEvent ''ev2'')] (sha256 oldFile) = Some ''auth-c3''
   \<and> purgeFiles demoPurgeEnv [''s1'', ''s2''] ([staleFile] @ oldFile # [strayFile]) []
       = ([CreateDeleteAuth ''d4'', DeleteBlob ''s1'' ''d4'' ''auth-d4'',
           ConsoleError (ErrorDeletingBlob ''d4'' ''s1''),
           DeleteBlob ''s2'' ''d4'' ''auth-d4'', EventDelete ''ev2'',
           ConsoleError (ErrorDeletingEvent ''ev2''), CreateDeleteAuth ''c3'',
           DeleteBlob ''s1'' ''c3'' ''auth-c3'',
           ConsoleError (ErrorDeletingBlob ''c3'' ''s1''),
           DeleteBlob ''s2'' ''c3'' ''auth-c3'', EventDelete ''ev1''], True)
   \<and> (\<exists>dels tail rest.
        fst (purgeFiles demoPurgeEnv [''s1'', ''s2''] ([staleFile] @ oldFile # [strayFile]) [])
          = [CreateDeleteAuth ''d4'', DeleteBlob ''s1'' ''d4'' ''auth-d4'',
             ConsoleError (ErrorDeletingBlob ''d4'' ''s1''),
             DeleteBlob ''s2'' ''d4'' ''auth-d4'', EventDelete ''ev2'',
             ConsoleError (ErrorDeletingEvent ''ev2'')]
            @ CreateDeleteAuth (sha256 oldFile) # dels @ EventDelete ''ev1'' # tail @ rest
      \<and> calls dels = map (\<lambda>s. DeleteBlob s (sha256 oldFile) ''auth-c3'') [''s1'', ''s2'']
      \<and> length (filter (\<lambda>x. x = EventDelete ''ev1'')
           (CreateDeleteAuth (sha256 oldFile) # dels @ EventDelete ''ev1'' # tail)) = 1)"
proof -
  let ?tr = "[CreateDeleteAuth ''d4'', DeleteBlob ''s1'' ''d4'' ''auth-d4'',
           ConsoleError (ErrorDeletingBlob ''d4'' ''s1''),
           DeleteBlob ''s2'' ''d4'' ''auth-d4'', EventDelete ''ev2'',
           ConsoleError (ErrorDeletingEvent ''ev2'')]"
  have h1: "event oldFile = Some ''ev1''" by (simp add: oldFile_def)
  have h2: "purgeFiles demoPurgeEnv [''s1'', ''s2''] [staleFile] [] = (?tr, True)"
    by (simp add: purge_demo_defs)
  have h3: "createDeleteAuth demoPurgeEnv ?tr (sha256 oldFile) = Some ''auth-c3''"
    by (simp add: purge_demo_defs)
  have run: "purgeFiles demoPurgeEnv [''s1'', ''s2''] ([staleFile] @ oldFile # [strayFile]) []
       = (?tr @ [CreateDeleteAuth ''c3'',
           DeleteBlob ''s1'' ''c3'' ''auth-c3'',
           ConsoleError (ErrorDeletingBlob ''c3'' ''s1''),
           DeleteBlob ''s2'' ''c3'' ''auth-c3'', EventDelete ''ev1''], True)"
    by (simp add: purge_demo_defs)
  from retraction_once_after_deletions [OF h1 h2 h3, of "[strayFile]"] h1 h2 h3 run
  show ?thesis by (simp only: append_Cons append_Nil) blast
qed

text \<open>
  Claim C7, as stated, fails after a signing that throws: the loop is left, so for a later
  file with a source record nothing is signed, and no deletion is attempted on any server
  for either file.
\<close>

theorem signing_failure_leaves_later_files:
  "event oldFile = Some ''ev1''
   \<and> purge demoPurgeEnv True [''s1'', ''s2''] [unsignedFile, oldFile]
       = ([CreateDeleteAuth ''bad'', ConsoleError FailedToFetchOnlineFiles], False)"
  by (simp add: purge_demo_defs)

text \<open>
  Claim C7, amended. For a file with a source record that the loop reaches (no signing
  threw for an earlier file), the delete authorization is signed once, before any deletion:
  when the signing returns, the calls made for the file are the signing, then one deletion
  for every server, each with that same authorization, then the retraction of the event;
  when it throws, the signing is the only call made for the file.
\<close>

theorem one_authorization_per_file:
  assumes "event f = Some e"
    and "purgeFiles P blossomServers pre tr0 = (tr, True)"
  shows "(case createDeleteAuth P tr (sha256 f) of
            None \<Rightarrow>
              purgeFiles P blossomServers (pre @ f # post) tr0
                = (tr @ [CreateDeleteAuth (sha256 f)], False)
          | Some deleteAuth \<Rightarrow>
              (\<exists>seg. purgeFiles P blossomServers (pre @ f # post) tr0
                       = purgeFiles P blossomServers post (tr @ seg)
                 \<and> calls seg = CreateDeleteAuth (sha256 f)
                     # map (\<lambda>s. DeleteBlob s (sha256 f) deleteAuth) blossomServers
                     @ [EventDelete e]))"
proof (cases "createDeleteAuth P tr (sha256 f)")
  case None
  have "purgeFiles P blossomServers (pre @ f # post) tr0 = purgeFiles P blossomServers (f # post) tr"
    using purgeFiles_append [of P blossomServers pre "f # post" tr0] assms(2) by simp
  with None assms(1) show ?thesis by simp
next
  case (Some deleteAuth)
  from purge_file_trace [OF assms(1) Some, of blossomServers post]
  obtain dels where
    step: "purgeFiles P blossomServers (f # post) tr =
      purgeFiles P blossomServers post
        (tr @ CreateDeleteAuth (sha256 f) # dels @ EventDelete e #
           (if eventDelete P (tr @ CreateDeleteAuth (sha256 f) # dels) e then []
            else [ConsoleError (ErrorDeletingEvent e)]))"
    and c: "calls dels = map (\<lambda>s. DeleteBlob s (sha256 f) deleteAuth) blossomServers"
    by blast
  let ?seg = "CreateDeleteAuth (sha256 f) # dels @ EventDelete e #
           (if eventDelete P (tr @ CreateDeleteAuth (sha256 f) # dels) e then []
            else [ConsoleError (ErrorDeletingEvent e)])"
  have whole: "purgeFiles P blossomServers (pre @ f # post) tr0
        = purgeFiles P blossomServers post (tr @ ?seg)"
    using purgeFiles_append [of P blossomServers pre "f # post" tr0] assms(2) step by simp
  have cs: "calls ?seg = CreateDeleteAuth (sha256 f)
        # map (\<lambda>s. DeleteBlob s (sha256 f) deleteAuth) blossomServers @ [EventDelete e]"
  proof -
    have "calls ?seg = calls [CreateDeleteAuth (sha256 f)] @ calls dels @ calls [EventDelete e]
        @ calls (if eventDelete P (tr @ CreateDeleteAuth (sha256 f) # dels) e then []
            else [ConsoleError (ErrorDeletingEvent e)])"
      by (simp only: calls_append [symmetric] append_Cons append_Nil)
    then show ?thesis by (simp add: c) (simp add: calls_def isCall_def)
  qed
  from whole cs have "\<exists>seg. purgeFiles P blossomServers (pre @ f # post) tr0
                       = purgeFiles P blossomServers post (tr @ seg)
                 \<and> calls seg = CreateDeleteAuth (sha256 f)
                     # map (\<lambda>s. DeleteBlob s (sha256 f) deleteAuth) blossomServers
                     @ [EventDelete e]"
    by blast
  with Some show ?thesis by simp
qed

theorem one_authorization_per_file_witness:
  "event oldFile = Some ''ev1''
   \<and> purgeFiles demoPurgeEnv [''s1'', ''s2''] [] [] = ([], True)
   \<and> createDeleteAuth demoPurgeEnv [] (sha256 oldFile) = Some ''auth-c3''
   \<and> (\<exists>seg. purgeFiles demoPurgeEnv [''s1'', ''s2''] ([] @ oldFile # [staleFile]) []
              = purgeFiles demoPurgeEnv [''s1'', ''s2''] [staleFile] ([] @ seg)
        \<and> calls seg = CreateDeleteAuth (sha256 oldFile)
            # map (\<lambda>s. DeleteBlob s (sha256 oldFile) ''auth-c3'') [''s1'', ''s2'']
            @ [EventDelete ''ev1''])
   \<and> event unsignedFile = Some ''ev0''
   \<and> createDeleteAuth demoPurgeEnv [] (sha256 unsignedFile) = None
   \<and> purgeFiles demoPurgeEnv [''s1'', ''s2''] ([] @ unsignedFile # [oldFile]) []
       = ([] @ [CreateDeleteAuth (sha256 unsignedFile)], False)"
proof -
  have h1: "event oldFile = Some ''ev1''" by (simp add: oldFile_def)
  have h2: "purgeFiles demoPurgeEnv [''s1'', ''s2''] [] [] = ([], True)" by simp
  have s1: "createDeleteAuth demoPurgeEnv [] (sha256 oldFile) = Some ''auth-c3''"
    by (simp add: purge_demo_defs)
  have h3: "event unsignedFile = Some ''ev0''" by (simp add: unsignedFile_def)
  have s2: "createDeleteAuth demoPurgeEnv [] (sha256 unsignedFile) = None"
    by (simp add: purge_demo_defs)
  from one_authorization_per_file [OF h1 h2, of "[staleFile]"]
    one_authorization_per_file [OF h3 h2, of "[oldFile]"] h1 h2 h3 s1 s2
  show ?thesis by simp
qed

text \<open>
  Claim C8. A file without a source record is skipped: wherever it stands in the purge set,
  the loop makes the same calls, writes the same lines and ends the same way as without it,
  and on its own the file adds nothing to the trace.
\<close>

theorem no_source_record_is_skipped:
  assumes "event f = None"
  shows "purgeFiles P blossomServers (pre @ f # post) tr = purgeFiles P blossomServers (pre @ post) tr
    \<and> purge P purgeOption blossomServers (pre @ f # post) = purge P purgeOption blossomServers (pre @ post)
    \<and> purgeFiles P blossomServers [f] tr = (tr, True)"
proof -
  have a: "purgeFiles P blossomServers (pre @ f # post) tr' = purgeFiles P blossomServers (pre @ post) tr'" for tr'
    using assms
    by (simp add: purgeFiles_append [of P blossomServers pre "f # post"]
        purgeFiles_append [of P blossomServers pre post])
  have "purgeFiles P blossomServers [f] tr = (tr, True)" using assms by simp
  with a [of tr] a [of "[]"] show ?thesis by (simp add: purge_def)
qed

theorem no_source_record_is_skipped_witness:
  "event strayFile = None
   \<and> purge demoPurgeEnv True [''s1'', ''s2''] ([oldFile] @ strayFile # [staleFile])
       = purge demoPurgeEnv True [''s1'', ''s2''] ([oldFile] @ [staleFile])
   \<and> purge demoPurgeEnv True [''s1'', ''s2''] ([oldFile] @ strayFile # [staleFile])
       = ([CreateDeleteAuth ''c3'', DeleteBlob ''s1'' ''c3'' ''auth-c3'',
           ConsoleError (ErrorDeletingBlob ''c3'' ''s1''),
           DeleteBlob ''s2'' ''c3'' ''auth-c3'', EventDelete ''ev1'',
           CreateDeleteAuth ''d4'', DeleteBlob ''s1'' ''d4'' ''auth-d4'',
           ConsoleError (ErrorDeletingBlob ''d4'' ''s1''),
           DeleteBlob ''s2'' ''d4'' ''auth-d4'', EventDelete ''ev2'',
           ConsoleError (ErrorDeletingEvent ''ev2'')], True)
   \<and> purgeFiles demoPurgeEnv [''s1'', ''s2''] [strayFile] [] = ([], True)"
proof -
  have h1: "event strayFile = None" by (simp add: strayFile_def)
  have run: "purge demoPurgeEnv True [''s1'', ''s2''] ([oldFile] @ strayFile # [staleFile])
       = ([CreateDeleteAuth ''c3'', DeleteBlob ''s1'' ''c3'' ''auth-c3'',
           ConsoleError (ErrorDeletingBlob ''c3'' ''s1''),
           DeleteBlob ''s2'' ''c3'' ''auth-c3'', EventDelete ''ev1'',
           CreateDeleteAuth ''d4'', DeleteBlob ''s1'' ''d4'' ''auth-d4'',
           ConsoleError (ErrorDeletingBlob ''d4'' ''s1''),
           DeleteBlob ''s2'' ''d4'' ''auth-d4'', EventDelete ''ev2'',
           ConsoleError (ErrorDeletingEvent ''ev2'')], True)"
    by (simp add: purge_demo_defs)
  from no_source_record_is_skipped [OF h1, of demoPurgeEnv "[''s1'', ''s2'']" "[oldFile]" "[staleFile]" "[]" True]
    h1 run
  show ?thesis by simp
qed

end
